theory Spec2Isabelle
  imports Main
begin

section \<open>Data model of the vision processor\<close>

text \<open>
  \<^verbatim>\<open>InventoryState = Dict[int, Dict]\<close>: the inner dictionary always carries the four
  keys \<^verbatim>\<open>name\<close>, \<^verbatim>\<open>min_stock\<close>, \<^verbatim>\<open>current_stock\<close> and \<^verbatim>\<open>alert_status\<close>
  (\<^verbatim>\<open>INITIAL_INVENTORY_CONFIG\<close> extended by \<^verbatim>\<open>load_inventory_state\<close>), so it is a
  record. Python integers are unbounded: \<open>int\<close>. The alert status is the string the
  code stores. The outer dictionary keeps insertion order, which the loop of
  \<^verbatim>\<open>process_frame_update\<close> follows: an association list.
\<close>

record item_data =
  name :: string
  min_stock :: int
  current_stock :: int
  alert_status :: string

type_synonym InventoryState = "(int \<times> item_data) list"

text \<open>
  A transaction record. The vision processor stores \<^verbatim>\<open>str(item_id)\<close> in it, the API
  model (\<^verbatim>\<open>class Transaction(BaseModel)\<close>) the integer itself, so the type of the
  identifier is a parameter.
\<close>

record 'i transaction =
  item_id :: 'i
  item_name :: string
  timestamp :: string
  action :: string
  quantity_change :: int

subsection \<open>\<^verbatim>\<open>str\<close> on integers\<close>

definition digit_char :: "nat \<Rightarrow> char" where
  "digit_char d = ''0123456789'' ! d"

function str_nat :: "nat \<Rightarrow> string" where
  "str_nat n = (if n < 10 then [digit_char n] else str_nat (n div 10) @ [digit_char (n mod 10)])"
  by pat_completeness auto
termination
  by (relation "measure (\<lambda>n. n)") auto

declare str_nat.simps [simp del]

definition str_int :: "int \<Rightarrow> string" where
  "str_int i = (if i < 0 then CHR ''-'' # str_nat (nat (- i)) else str_nat (nat i))"

subsection \<open>\<^verbatim>\<open>INITIAL_INVENTORY_CONFIG\<close> and the default of \<^verbatim>\<open>load_inventory_state\<close>\<close>

definition INITIAL_INVENTORY_CONFIG :: "(int \<times> string \<times> int \<times> int) list" where
  "INITIAL_INVENTORY_CONFIG =
     [(1, ''Laptop Box'', 2, 5), (2, ''Accessory Kit'', 5, 10), (3, ''Monitor Stand'', 1, 3)]"

text \<open>
  What \<^verbatim>\<open>load_inventory_state\<close> returns when the file is missing or does not decode:
  every configured item with \<^verbatim>\<open>alert_status\<close> \<^verbatim>\<open>"OK"\<close>.
\<close>

definition default_inventory_state :: InventoryState where
  "default_inventory_state =
     map (\<lambda>(i, n, m, c). (i, \<lparr>name = n, min_stock = m, current_stock = c, alert_status = ''OK''\<rparr>))
       INITIAL_INVENTORY_CONFIG"

section \<open>\<^verbatim>\<open>process_frame_update\<close>\<close>

text \<open>
  Lines 110 to 114: the status starts as \<^verbatim>\<open>"OK"\<close> and two independent \<^verbatim>\<open>if\<close>
  statements overwrite it, the second one last. The same four lines stand in
  \<^verbatim>\<open>process_vision_frame\<close> of the API, on an \<^verbatim>\<open>InventoryItem\<close>.
\<close>

definition new_status :: "'a item_data_scheme \<Rightarrow> string" where
  "new_status item_data =
     (let new_status = ''OK'';
          new_status = (if current_stock item_data \<le> min_stock item_data then ''LOW'' else new_status);
          new_status = (if current_stock item_data = 0 then ''CRITICAL'' else new_status)
      in new_status)"

text \<open>
  Line 97: \<^verbatim>\<open>{item_id: tracked_ids.count(item_id) for item_id in new_state.keys()}\<close>.
\<close>

definition new_counts_of :: "int list \<Rightarrow> (int \<times> 'v) list \<Rightarrow> (int \<times> int) list" where
  "new_counts_of tracked_ids new_state =
     map (\<lambda>iid. (iid, int (count_list tracked_ids iid))) (map fst new_state)"

text \<open>Line 101: \<^verbatim>\<open>new_counts.get(item_id, 0)\<close>.\<close>

definition get_count :: "(int \<times> int) list \<Rightarrow> int \<Rightarrow> int" where
  "get_count new_counts iid = (case map_of new_counts iid of Some c \<Rightarrow> c | None \<Rightarrow> 0)"

text \<open>
  The body of the loop (lines 100 to 129) for one entry of \<^verbatim>\<open>new_state\<close>: it returns the
  entry's dictionary and the variable \<^verbatim>\<open>transaction\<close> as the body leaves them.
  \<open>now\<close> is what \<^verbatim>\<open>time.strftime("%Y-%m-%d %H:%M:%S")\<close> reads from the clock during
  the call. The \<^verbatim>\<open>print\<close> of line 129 writes to the console only and is left out.
\<close>

definition frame_step ::
  "string \<Rightarrow> (int \<times> int) list \<Rightarrow> int \<Rightarrow> item_data \<Rightarrow> string transaction option
     \<Rightarrow> item_data \<times> string transaction option" where
  "frame_step now new_counts iid item_data transaction =
     (let old_count = current_stock item_data;
          new_count = get_count new_counts iid
      in if new_count \<noteq> old_count then
           (let change = new_count - old_count;
                item_data = item_data\<lparr>current_stock := new_count\<rparr>;
                item_data = item_data\<lparr>alert_status := new_status item_data\<rparr>;
                transaction =
                  (if transaction = None then
                     Some \<lparr>item_id = str_int iid,
                           item_name = name item_data,
                           timestamp = now,
                           action = (if change > 0 then ''ADDED'' else ''REMOVED''),
                           quantity_change = abs change\<rparr>
                   else transaction)
            in (item_data, transaction))
         else (item_data, transaction))"

text \<open>
  The \<^verbatim>\<open>for\<close> loop of line 99 over \<^verbatim>\<open>new_state.items()\<close>, in insertion order.
  The loop variable \<^verbatim>\<open>item_id\<close> is written \<open>iid\<close>, since \<open>item_id\<close> is the field of the
  transaction record.
\<close>

fun frame_loop ::
  "string \<Rightarrow> (int \<times> int) list \<Rightarrow> InventoryState \<Rightarrow> string transaction option
     \<Rightarrow> InventoryState \<times> string transaction option" where
  "frame_loop now new_counts [] transaction = ([], transaction)"
| "frame_loop now new_counts ((iid, item_data) # rest) transaction =
     (case frame_step now new_counts iid item_data transaction of
        (item_data', transaction') \<Rightarrow>
          (case frame_loop now new_counts rest transaction' of
             (rest', transaction'') \<Rightarrow> ((iid, item_data') # rest', transaction'')))"

text \<open>
  The whole function. Line 93 copies every inner dictionary; on values the copy is the
  identity (the aliasing is treated in the store model below).
\<close>

definition process_frame_update ::
  "string \<Rightarrow> InventoryState \<Rightarrow> int list \<Rightarrow> InventoryState \<times> string transaction option" where
  "process_frame_update now current_state tracked_ids =
     (let new_state = map (\<lambda>(id', data). (id', data)) current_state;
          transaction = None;
          new_counts = new_counts_of tracked_ids new_state
      in frame_loop now new_counts new_state transaction)"

section \<open>The specification's reading of a reconciliation cycle\<close>

text \<open>
  The definitions of this section follow the words of the specification (sections 4.1
  and 4.2), not the code; the theorems below compare them with the code.
\<close>

datatype tier = Ok | Low | Critical

text \<open>Section 4.1, the alert evaluator.\<close>

definition evaluate :: "int \<Rightarrow> int \<Rightarrow> tier" where
  "evaluate stock min_stock' =
     (if stock = 0 then Critical else if stock \<le> min_stock' then Low else Ok)"

text \<open>The string the code stores for a tier.\<close>

fun tier_str :: "tier \<Rightarrow> string" where
  "tier_str Ok = ''OK''"
| "tier_str Low = ''LOW''"
| "tier_str Critical = ''CRITICAL''"

text \<open>Step 1: the multiplicity of an identifier in the observation.\<close>

definition observed_count :: "int list \<Rightarrow> int \<Rightarrow> int" where
  "observed_count observation iid = int (count_list observation iid)"

text \<open>Step 2: \<open>delta = observed_count - old_stock\<close>, for one entry of the snapshot.\<close>

definition delta :: "int list \<Rightarrow> int \<times> item_data \<Rightarrow> int" where
  "delta observation e = observed_count observation (fst e) - current_stock (snd e)"

text \<open>The items whose observed count differs from their stored stock, in catalog order.\<close>

definition changed_items :: "InventoryState \<Rightarrow> int list \<Rightarrow> InventoryState" where
  "changed_items snapshot observation = filter (\<lambda>e. delta observation e \<noteq> 0) snapshot"

text \<open>Steps 2 and 3 on one item's record.\<close>

definition reconcile_item :: "int list \<Rightarrow> int \<times> item_data \<Rightarrow> int \<times> item_data" where
  "reconcile_item observation e =
     (if delta observation e = 0 then e
      else (fst e,
            (snd e)\<lparr>current_stock := observed_count observation (fst e),
                     alert_status :=
                       tier_str (evaluate (observed_count observation (fst e)) (min_stock (snd e)))\<rparr>))"

text \<open>Step 3: the transaction of one changed item.\<close>

definition transaction_of :: "string \<Rightarrow> int list \<Rightarrow> int \<times> item_data \<Rightarrow> string transaction" where
  "transaction_of now observation e =
     \<lparr>item_id = str_int (fst e),
      item_name = name (snd e),
      timestamp = now,
      action = (if delta observation e > 0 then ''ADDED'' else ''REMOVED''),
      quantity_change = \<bar>delta observation e\<bar>\<rparr>"

text \<open>
  The transactions a call returns, as a sequence: \<^verbatim>\<open>process_frame_update\<close> returns
  \<^verbatim>\<open>Optional[Transaction]\<close>, that is none or one.
\<close>

definition transactions :: "'s \<times> 't option \<Rightarrow> 't list" where
  "transactions r = (case snd r of None \<Rightarrow> [] | Some t \<Rightarrow> [t])"

text \<open>The alert tier invariant of one record.\<close>

definition tier_ok :: "'a item_data_scheme \<Rightarrow> bool" where
  "tier_ok d = (alert_status d = tier_str (evaluate (current_stock d) (min_stock d)))"

text \<open>The observation without the identifiers that are absent from the catalog.\<close>

definition known_only :: "InventoryState \<Rightarrow> int list \<Rightarrow> int list" where
  "known_only snapshot observation = filter (\<lambda>i. i \<in> fst ` set snapshot) observation"

text \<open>Every stock of a state is non-negative.\<close>

definition nonneg_stock :: "(int \<times> 'a item_data_scheme) list \<Rightarrow> bool" where
  "nonneg_stock state = list_all (\<lambda>e. 0 \<le> current_stock (snd e)) state"

text \<open>Every record of a state carries the tier of its stock.\<close>

definition tiers_ok :: "(int \<times> 'a item_data_scheme) list \<Rightarrow> bool" where
  "tiers_ok state = list_all (\<lambda>e. tier_ok (snd e)) state"

section \<open>The API: \<^verbatim>\<open>app_api.py\<close>\<close>

text \<open>
  \<^verbatim>\<open>class InventoryItem(BaseModel)\<close> has the four fields of the inner dictionary and
  \<^verbatim>\<open>id\<close> (written \<open>id'\<close>: \<open>id\<close> is the identity function of HOL).
\<close>

record InventoryItem = item_data +
  id' :: int

definition INVENTORY_ITEMS :: "(int \<times> string \<times> int \<times> int) list" where
  "INVENTORY_ITEMS =
     [(1, ''Laptop Box'', 2, 5), (2, ''Accessory Kit'', 5, 10), (3, ''Monitor Stand'', 1, 3)]"

text \<open>\<^verbatim>\<open>SIMULATED_DETECTED_IDS = list(INVENTORY_ITEMS.keys()) * 2\<close>\<close>

definition SIMULATED_DETECTED_IDS :: "int list" where
  "SIMULATED_DETECTED_IDS = map fst INVENTORY_ITEMS @ map fst INVENTORY_ITEMS"

text \<open>
  The two module-level variables \<^verbatim>\<open>inventory_db\<close> and \<^verbatim>\<open>transaction_history\<close> are the
  state every handler works on.
\<close>

record api_state =
  inventory_db :: "(int \<times> InventoryItem) list"
  transaction_history :: "int transaction list"

definition initial_api_state :: api_state where
  "initial_api_state =
     \<lparr>inventory_db =
        map (\<lambda>(i, n, m, c).
               (i, \<lparr>name = n, min_stock = m, current_stock = c, alert_status = ''OK'', id' = i\<rparr>))
          INVENTORY_ITEMS,
      transaction_history = []\<rparr>"

text \<open>
  What one call of \<^verbatim>\<open>process_vision_frame\<close> draws from \<^verbatim>\<open>random\<close>: the target
  (\<^verbatim>\<open>random.choice(SIMULATED_DETECTED_IDS)\<close>), the action
  (\<^verbatim>\<open>random.choice(["ADD", "REMOVE", "NONE"])\<close>) and the outcome of the test
  \<^verbatim>\<open>random.random() < 0.3\<close>.
\<close>

datatype sim_action = ADD | REMOVE | NONE

fun sim_action_str :: "sim_action \<Rightarrow> string" where
  "sim_action_str ADD = ''ADD''"
| "sim_action_str REMOVE = ''REMOVE''"
| "sim_action_str NONE = ''NONE''"

record draws =
  drawn_target :: int
  drawn_action :: sim_action
  drawn_below :: bool

datatype py_error = KeyError

text \<open>
  \<^verbatim>\<open>item\<close> is the object stored under \<^verbatim>\<open>target_id\<close>; assigning to its attributes changes
  the entry of the dictionary.
\<close>

definition store_item :: "int \<Rightarrow> 'v \<Rightarrow> (int \<times> 'v) list \<Rightarrow> (int \<times> 'v) list" where
  "store_item k v db = map (\<lambda>e. if fst e = k then (k, v) else e) db"

definition process_vision_frame :: "string \<Rightarrow> draws \<Rightarrow> api_state \<Rightarrow> py_error + api_state" where
  "process_vision_frame now dr st =
     (let target_id = drawn_target dr;
          act = drawn_action dr
      in if act \<noteq> NONE \<and> drawn_below dr then
           (case map_of (inventory_db st) target_id of
              None \<Rightarrow> Inl KeyError
            | Some item \<Rightarrow>
                (let change = (if act = ADD then 1 else - 1);
                     (change, act) =
                       (if act = REMOVE \<and> current_stock item \<le> 0 then (0, NONE) else (change, act))
                 in if change \<noteq> 0 then
                      (let item = item\<lparr>current_stock := current_stock item + change\<rparr>;
                           item = item\<lparr>alert_status := new_status item\<rparr>
                       in Inr (st\<lparr>inventory_db := store_item target_id item (inventory_db st),
                                  transaction_history :=
                                    transaction_history st @
                                      [\<lparr>item_id = id' item,
                                        item_name = name item,
                                        timestamp = now,
                                        action = sim_action_str act @ ''ED'',
                                        quantity_change = change\<rparr>]\<rparr>))
                    else Inr st))
         else Inr st)"

text \<open>
  \<^verbatim>\<open>GET /inventory/status\<close>: the handler calls \<^verbatim>\<open>process_vision_frame()\<close> and then
  returns \<^verbatim>\<open>list(inventory_db.values())\<close>. The model returns the state the handler
  leaves and the list it answers with.
\<close>

definition get_inventory_status ::
  "string \<Rightarrow> draws \<Rightarrow> api_state \<Rightarrow> py_error + (api_state \<times> InventoryItem list)" where
  "get_inventory_status now dr st =
     (case process_vision_frame now dr st of
        Inl e \<Rightarrow> Inl e
      | Inr st' \<Rightarrow> Inr (st', map snd (inventory_db st')))"

text \<open>\<^verbatim>\<open>GET /inventory/transactions\<close>: \<^verbatim>\<open>transaction_history[-10:]\<close>.\<close>

definition get_transaction_history :: "api_state \<Rightarrow> int transaction list" where
  "get_transaction_history st =
     drop (length (transaction_history st) - 10) (transaction_history st)"

text \<open>
  What becomes of one entry of the state when its identifier is not among the tracked
  identifiers: the observed count is 0.
\<close>

definition zero_stock :: "int \<times> item_data \<Rightarrow> int \<times> item_data" where
  "zero_stock e =
     (if current_stock (snd e) = 0 then e
      else (fst e, (snd e)\<lparr>current_stock := 0, alert_status := ''CRITICAL''\<rparr>))"

text \<open>
  The draws on which \<^verbatim>\<open>process_vision_frame\<close> changes the store: an action other than
  \<^verbatim>\<open>NONE\<close>, the test \<^verbatim>\<open>random.random() < 0.3\<close> passed, and not a \<^verbatim>\<open>REMOVE\<close> of an item
  whose stock is 0 or less.
\<close>

definition frame_changes :: "draws \<Rightarrow> api_state \<Rightarrow> bool" where
  "frame_changes dr st =
     (drawn_action dr \<noteq> NONE \<and> drawn_below dr \<and>
      (case map_of (inventory_db st) (drawn_target dr) of
         None \<Rightarrow> False
       | Some item \<Rightarrow> drawn_action dr = ADD \<or> 0 < current_stock item))"

text \<open>
  What \<^verbatim>\<open>process_vision_frame\<close> does to the store when it changes it, read off lines 61
  to 88: the stock of the target moves by \<open>1\<close> or \<open>-1\<close>, its status is evaluated anew,
  and one transaction is appended (its action is \<^verbatim>\<open>action + "ED"\<close>, so \<^verbatim>\<open>"REMOVEED"\<close>
  for a removal, and its quantity is the signed change).
\<close>

definition stock_change :: "draws \<Rightarrow> int" where
  "stock_change dr = (if drawn_action dr = ADD then 1 else - 1)"

definition moved_item :: "draws \<Rightarrow> InventoryItem \<Rightarrow> InventoryItem" where
  "moved_item dr item =
     item\<lparr>current_stock := current_stock item + stock_change dr,
          alert_status :=
            tier_str (evaluate (current_stock item + stock_change dr) (min_stock item))\<rparr>"

definition frame_transaction :: "string \<Rightarrow> draws \<Rightarrow> InventoryItem \<Rightarrow> int transaction" where
  "frame_transaction now dr item =
     \<lparr>item_id = id' item,
      item_name = name item,
      timestamp = now,
      action = (if drawn_action dr = ADD then ''ADDED'' else ''REMOVEED''),
      quantity_change = stock_change dr\<rparr>"

section \<open>\<^verbatim>\<open>process_frame_update\<close> on a store of objects\<close>

text \<open>
  \<^verbatim>\<open>process_frame_update\<close> writes into dictionaries (lines 107 and 116). Which
  dictionaries it writes into is a question about objects, not values, so here the
  dictionaries live in a store: a list of objects, an address being an index, and
  allocation appending a new object. The outer dictionary holds references to the inner
  ones.
\<close>

type_synonym addr = nat

datatype obj = StateDict "(int \<times> addr) list" | ItemDict item_data

type_synonym store = "obj list"

text \<open>Creating an object: it gets the next free address.\<close>

definition alloc :: "store \<Rightarrow> obj \<Rightarrow> store \<times> addr" where
  "alloc h v = (h @ [v], length h)"

text \<open>
  Following a reference. A reference that does not lead to an object of the expected
  kind does not occur in Python; the model answers \<open>None\<close> there.
\<close>

definition item_at :: "store \<Rightarrow> addr \<Rightarrow> item_data option" where
  "item_at h a =
     (if a < length h then (case h ! a of ItemDict d \<Rightarrow> Some d | StateDict _ \<Rightarrow> None) else None)"

definition state_at :: "store \<Rightarrow> addr \<Rightarrow> (int \<times> addr) list option" where
  "state_at h a =
     (if a < length h then (case h ! a of StateDict es \<Rightarrow> Some es | ItemDict _ \<Rightarrow> None) else None)"

text \<open>
  Line 93, \<^verbatim>\<open>{id: data.copy() for id, data in current_state.items()}\<close>: every inner
  dictionary is copied into a new object. The fields hold integers and strings,
  which are immutable, so the shallow copy shares nothing that can change.
\<close>

fun copy_items :: "store \<Rightarrow> (int \<times> addr) list \<Rightarrow> (store \<times> (int \<times> addr) list) option" where
  "copy_items h [] = Some (h, [])"
| "copy_items h ((k, a) # es) =
     (case item_at h a of
        None \<Rightarrow> None
      | Some data \<Rightarrow>
          (case alloc h (ItemDict data) of
             (h1, a1) \<Rightarrow>
               (case copy_items h1 es of
                  None \<Rightarrow> None
                | Some (h2, es') \<Rightarrow> Some (h2, (k, a1) # es'))))"

text \<open>
  The loop of line 99 on the store: \<^verbatim>\<open>item_data\<close> is the object behind the reference, and
  the assignments of the body write into that object.
\<close>

fun frame_loop_store ::
  "string \<Rightarrow> (int \<times> int) list \<Rightarrow> (int \<times> addr) list \<Rightarrow> store \<Rightarrow> string transaction option
     \<Rightarrow> (store \<times> string transaction option) option" where
  "frame_loop_store now new_counts [] h transaction = Some (h, transaction)"
| "frame_loop_store now new_counts ((iid, a) # rest) h transaction =
     (case item_at h a of
        None \<Rightarrow> None
      | Some item_data \<Rightarrow>
          (case frame_step now new_counts iid item_data transaction of
             (item_data', transaction') \<Rightarrow>
               frame_loop_store now new_counts rest (h[a := ItemDict item_data']) transaction'))"

text \<open>
  The whole function on the store: it takes the address of \<^verbatim>\<open>current_state\<close> and returns
  the store it leaves, the address of \<^verbatim>\<open>new_state\<close> and the transaction.
\<close>

definition process_frame_update_store ::
  "string \<Rightarrow> store \<Rightarrow> addr \<Rightarrow> int list \<Rightarrow> (store \<times> addr \<times> string transaction option) option" where
  "process_frame_update_store now h current_state tracked_ids =
     (case state_at h current_state of
        None \<Rightarrow> None
      | Some entries \<Rightarrow>
          (case copy_items h entries of
             None \<Rightarrow> None
           | Some (h1, new_entries) \<Rightarrow>
               (case alloc h1 (StateDict new_entries) of
                  (h2, new_state) \<Rightarrow>
                    (let transaction = None;
                         new_counts = new_counts_of tracked_ids new_entries
                     in case frame_loop_store now new_counts new_entries h2 transaction of
                          None \<Rightarrow> None
                        | Some (h3, transaction') \<Rightarrow> Some (h3, new_state, transaction')))))"

text \<open>The state a dictionary of the store stands for.\<close>

fun items_of :: "store \<Rightarrow> (int \<times> addr) list \<Rightarrow> InventoryState option" where
  "items_of h [] = Some []"
| "items_of h ((k, a) # es) =
     (case item_at h a of
        None \<Rightarrow> None
      | Some d \<Rightarrow> (case items_of h es of None \<Rightarrow> None | Some S \<Rightarrow> Some ((k, d) # S)))"

definition state_value :: "store \<Rightarrow> addr \<Rightarrow> InventoryState option" where
  "state_value h a = (case state_at h a of None \<Rightarrow> None | Some es \<Rightarrow> items_of h es)"

text \<open>A store with a state of two items at address 2.\<close>

definition store0 :: store where
  "store0 =
     [ItemDict \<lparr>name = ''Laptop Box'', min_stock = 2, current_stock = 5, alert_status = ''OK''\<rparr>,
      ItemDict \<lparr>name = ''Accessory Kit'', min_stock = 5, current_stock = 10, alert_status = ''OK''\<rparr>,
      StateDict [(1, 0), (2, 1)]]"

section \<open>The loop of \<^verbatim>\<open>process_frame_update\<close>\<close>

lemma get_count_new_counts_of:
  "get_count (new_counts_of tracked_ids new_state) iid =
     (if iid \<in> fst ` set new_state then int (count_list tracked_ids iid) else 0)"
  by (induction new_state) (auto simp: get_count_def new_counts_of_def)

lemma frame_step_fst:
  "fst (frame_step now nc iid d t) = fst (frame_step now nc iid d None)"
  by (simp add: frame_step_def Let_def)

lemma frame_loop_fst:
  "fst (frame_loop now nc S t) = map (\<lambda>(iid, d). (iid, fst (frame_step now nc iid d None))) S"
proof (induction S arbitrary: t)
  case Nil
  show ?case by simp
next
  case (Cons e S)
  obtain iid d where e: "e = (iid, d)" by (cases e)
  show ?case
    using Cons.IH [of "snd (frame_step now nc iid d t)"] frame_step_fst [of now nc iid d t]
    by (simp add: e case_prod_beta)
qed

lemma frame_loop_snd_Some:
  "snd (frame_loop now nc S (Some x)) = Some x"
  by (induction S) (auto simp: frame_step_def Let_def case_prod_beta)

lemma frame_loop_snd_None:
  "snd (frame_loop now nc S None) =
     (case filter (\<lambda>(iid, d). get_count nc iid \<noteq> current_stock d) S of
        [] \<Rightarrow> None
      | (iid, d) # _ \<Rightarrow> snd (frame_step now nc iid d None))"
proof (induction S)
  case Nil
  show ?case by simp
next
  case (Cons e S)
  obtain iid d where e: "e = (iid, d)" by (cases e)
  show ?case
  proof (cases "get_count nc iid = current_stock d")
    case True
    then have "frame_step now nc iid d None = (d, None)"
      by (simp add: frame_step_def)
    with True Cons.IH show ?thesis by (simp add: e case_prod_beta)
  next
    case False
    then obtain d' x where st: "frame_step now nc iid d None = (d', Some x)"
      by (simp add: frame_step_def Let_def)
    with False frame_loop_snd_Some [of now nc S x] show ?thesis
      by (simp add: e case_prod_beta)
  qed
qed

lemma new_status_evaluate:
  "new_status d = tier_str (evaluate (current_stock d) (min_stock d))"
  by (simp add: new_status_def evaluate_def)

lemma frame_step_reconcile:
  assumes "iid \<in> fst ` set S"
  shows "fst (frame_step now (new_counts_of tr S) iid d None) = snd (reconcile_item tr (iid, d))"
  using assms
  by (simp add: frame_step_def reconcile_item_def delta_def observed_count_def Let_def
      get_count_new_counts_of new_status_evaluate)

lemma frame_step_transaction:
  assumes "iid \<in> fst ` set S" "delta tr (iid, d) \<noteq> 0"
  shows "snd (frame_step now (new_counts_of tr S) iid d None) = Some (transaction_of now tr (iid, d))"
  using assms
  by (simp add: frame_step_def transaction_of_def delta_def observed_count_def Let_def
      get_count_new_counts_of)

lemma process_frame_update_fst:
  "fst (process_frame_update now S tr) = map (reconcile_item tr) S"
proof -
  have "map (\<lambda>(iid, d). (iid, fst (frame_step now (new_counts_of tr S) iid d None))) S
        = map (reconcile_item tr) S"
  proof (rule map_cong [OF refl])
    fix e assume "e \<in> set S"
    then have "fst e \<in> fst ` set S" by simp
    from frame_step_reconcile [OF this, of now tr "snd e"]
    show "(case e of (iid, d) \<Rightarrow> (iid, fst (frame_step now (new_counts_of tr S) iid d None)))
          = reconcile_item tr e"
      by (cases e) (simp add: reconcile_item_def)
  qed
  then show ?thesis
    by (simp add: process_frame_update_def frame_loop_fst)
qed

lemma process_frame_update_snd:
  "snd (process_frame_update now S tr) =
     (case changed_items S tr of [] \<Rightarrow> None | e # _ \<Rightarrow> Some (transaction_of now tr e))"
proof -
  let ?nc = "new_counts_of tr S"
  have f: "filter (\<lambda>(iid, d). get_count ?nc iid \<noteq> current_stock d) S = changed_items S tr"
    unfolding changed_items_def
  proof (rule filter_cong [OF refl])
    fix e assume "e \<in> set S"
    then have "fst e \<in> fst ` set S" by simp
    then show "(case e of (iid, d) \<Rightarrow> get_count ?nc iid \<noteq> current_stock d) = (delta tr e \<noteq> 0)"
      by (cases e) (simp add: get_count_new_counts_of delta_def observed_count_def)
  qed
  show ?thesis
  proof (cases "changed_items S tr")
    case Nil
    with f show ?thesis
      by (simp add: process_frame_update_def frame_loop_snd_None)
  next
    case (Cons e es)
    then have "e \<in> set (changed_items S tr)" by simp
    then have m: "e \<in> set S" and c: "delta tr e \<noteq> 0"
      by (simp_all add: changed_items_def)
    from m have "fst e \<in> fst ` set S" by simp
    from frame_step_transaction [OF this, of tr "snd e" now] c
    have "snd (frame_step now ?nc (fst e) (snd e) None) = Some (transaction_of now tr e)"
      by simp
    with f Cons show ?thesis
      by (cases e) (simp add: process_frame_update_def frame_loop_snd_None)
  qed
qed

lemma reconcile_item_fst: "fst (reconcile_item tr e) = fst e"
  by (simp add: reconcile_item_def)

lemma delta_reconcile_item: "delta tr (reconcile_item tr e) = 0"
  by (simp add: reconcile_item_def delta_def)

lemma changed_items_reconciled: "changed_items (map (reconcile_item tr) S) tr = []"
  by (simp add: changed_items_def delta_reconcile_item)

lemma reconcile_item_idem: "reconcile_item tr (reconcile_item tr e) = reconcile_item tr e"
  using delta_reconcile_item [of tr e] by (simp add: reconcile_item_def [of tr "reconcile_item tr e"])

lemma observed_count_filter:
  "P iid \<Longrightarrow> observed_count (filter P tr) iid = observed_count tr iid"
  by (induction tr) (auto simp: observed_count_def)

lemma delta_filter:
  "P (fst e) \<Longrightarrow> delta (filter P tr) e = delta tr e"
  by (simp add: delta_def observed_count_filter)

lemma reconcile_item_filter:
  "P (fst e) \<Longrightarrow> reconcile_item (filter P tr) e = reconcile_item tr e"
  by (simp add: reconcile_item_def delta_filter observed_count_filter)

lemma transaction_of_filter:
  "P (fst e) \<Longrightarrow> transaction_of now (filter P tr) e = transaction_of now tr e"
  by (simp add: transaction_of_def delta_filter)

lemma changed_items_filter:
  "(\<And>e. e \<in> set S \<Longrightarrow> P (fst e)) \<Longrightarrow> changed_items S (filter P tr) = changed_items S tr"
  unfolding changed_items_def
  by (rule filter_cong [OF refl]) (simp add: delta_filter)

lemma default_inventory_state_eq:
  "default_inventory_state =
     [(1, \<lparr>name = ''Laptop Box'', min_stock = 2, current_stock = 5, alert_status = ''OK''\<rparr>),
      (2, \<lparr>name = ''Accessory Kit'', min_stock = 5, current_stock = 10, alert_status = ''OK''\<rparr>),
      (3, \<lparr>name = ''Monitor Stand'', min_stock = 1, current_stock = 3, alert_status = ''OK''\<rparr>)]"
  by (simp add: default_inventory_state_def INITIAL_INVENTORY_CONFIG_def)

section \<open>Transactions per cycle\<close>

text \<open>
  C1, as the specification states it: the number of transactions of a cycle equals the
  number of changed items. The code does not do that. On the default inventory
  (stocks 5, 10 and 3) and the empty list of tracked identifiers all three items change,
  and the call returns one transaction.
\<close>

theorem transactions_not_one_per_changed_item:
  "length (transactions (process_frame_update ''2024-01-01 00:00:00'' default_inventory_state [])) = 1
   \<and> length (changed_items default_inventory_state []) = 3"
  by (simp add: transactions_def process_frame_update_snd changed_items_def delta_def
      observed_count_def default_inventory_state_eq)

text \<open>
  C1, amended: \<^verbatim>\<open>process_frame_update\<close> returns at most one transaction, the one of the
  first changed item in catalog order (line 119 records a transaction only while
  \<^verbatim>\<open>transaction is None\<close>), and none when no item changed; so the number of
  transactions is the smaller of 1 and the number of changed items. The returned state
  nevertheless has every changed item updated: each record is the reconciled one.
\<close>

theorem one_transaction_all_records_updated:
  "transactions (process_frame_update now S tr)
     = take 1 (map (transaction_of now tr) (changed_items S tr))
   \<and> length (transactions (process_frame_update now S tr)) = min 1 (length (changed_items S tr))
   \<and> fst (process_frame_update now S tr) = map (reconcile_item tr) S"
  by (simp add: transactions_def process_frame_update_snd process_frame_update_fst
      split: list.splits)


section \<open>Idempotence\<close>

text \<open>
  C6: a second call with the same tracked identifiers, on the state the first call
  returned, returns that state unchanged and no transaction (whatever the clock reads).
\<close>

theorem process_frame_update_idempotent:
  "process_frame_update now' (fst (process_frame_update now S tr)) tr
     = (fst (process_frame_update now S tr), None)"
proof -
  let ?S' = "fst (process_frame_update now S tr)"
  have 1: "fst (process_frame_update now' ?S' tr) = ?S'"
    by (simp add: process_frame_update_fst reconcile_item_idem)
  have 2: "snd (process_frame_update now' ?S' tr) = None"
    by (simp add: process_frame_update_snd process_frame_update_fst changed_items_reconciled)
  from 1 2 show ?thesis by (simp add: prod_eq_iff)
qed

section \<open>Identifiers absent from the catalog\<close>

text \<open>
  C8: the returned state has the keys of the given state, in the same order, and the
  result is the one obtained after removing from the tracked identifiers every
  identifier that is not a key of the state: such identifiers have no effect.
\<close>

theorem unknown_identifiers_ignored:
  "map fst (fst (process_frame_update now S tr)) = map fst S
   \<and> process_frame_update now S tr = process_frame_update now S (known_only S tr)"
proof -
  let ?P = "\<lambda>i. i \<in> fst ` set S"
  have P: "?P (fst e)" if "e \<in> set S" for e using that by simp
  have k: "map fst (fst (process_frame_update now S tr)) = map fst S"
    by (simp add: process_frame_update_fst reconcile_item_fst)
  have f: "fst (process_frame_update now S tr) = fst (process_frame_update now S (filter ?P tr))"
    unfolding process_frame_update_fst
    by (rule map_cong [OF refl], rule sym, rule reconcile_item_filter) (rule P)
  have c: "changed_items S (filter ?P tr) = changed_items S tr"
    by (rule changed_items_filter) (rule P)
  have "snd (process_frame_update now S tr) = snd (process_frame_update now S (filter ?P tr))"
  proof (cases "changed_items S tr")
    case Nil
    then show ?thesis unfolding process_frame_update_snd c by simp
  next
    case (Cons e es)
    then have "e \<in> set (changed_items S tr)" by simp
    then have "e \<in> set S" by (simp add: changed_items_def)
    from transaction_of_filter [of ?P e now tr, OF P [OF this]] Cons show ?thesis
      unfolding process_frame_update_snd c by simp
  qed
  with k f show ?thesis unfolding known_only_def by (simp add: prod_eq_iff)
qed

lemma process_vision_frame_cases:
  assumes "process_vision_frame now dr st = Inr st'"
  shows "st' = st \<or>
         (\<exists>item c. map_of (inventory_db st) (drawn_target dr) = Some item \<and> c = (if drawn_action dr = ADD then 1 else - 1) \<and>
            (drawn_action dr = ADD \<or> 0 < current_stock item) \<and>
            inventory_db st' = store_item (drawn_target dr)
               (item\<lparr>current_stock := current_stock item + c,
                      alert_status := new_status (item\<lparr>current_stock := current_stock item + c\<rparr>)\<rparr>) (inventory_db st)
            \<and> length (transaction_history st') = Suc (length (transaction_history st)))"
  using assms
  by (cases "drawn_action dr")
     (auto simp: process_vision_frame_def Let_def split: if_splits option.splits)

lemma tier_ok_new_status: "tier_ok (d\<lparr>alert_status := new_status d\<rparr>)"
  by (simp add: tier_ok_def new_status_evaluate)

lemma tier_ok_reconcile_item:
  "delta tr e \<noteq> 0 \<or> tier_ok (snd e) \<Longrightarrow> tier_ok (snd (reconcile_item tr e))"
  by (auto simp: reconcile_item_def tier_ok_def)

lemma list_all_store_item:
  "list_all P db \<Longrightarrow> P (k, v) \<Longrightarrow> list_all P (store_item k v db)"
  by (induction db) (auto simp: store_item_def)


lemma process_vision_frame_eq:
  "process_vision_frame now dr st =
     (if drawn_action dr \<noteq> NONE \<and> drawn_below dr then
        (case map_of (inventory_db st) (drawn_target dr) of
           None \<Rightarrow> Inl KeyError
         | Some item \<Rightarrow>
             if drawn_action dr = ADD \<or> 0 < current_stock item then
               Inr (st\<lparr>inventory_db :=
                          store_item (drawn_target dr) (moved_item dr item) (inventory_db st),
                        transaction_history :=
                          transaction_history st @ [frame_transaction now dr item]\<rparr>)
             else Inr st)
      else Inr st)"
  by (cases "drawn_action dr")
     (auto simp: process_vision_frame_def Let_def moved_item_def frame_transaction_def
        stock_change_def new_status_evaluate split: option.splits)

lemma process_vision_frame_changes:
  assumes "frame_changes dr st" "process_vision_frame now dr st = Inr st'"
  shows "\<exists>item. map_of (inventory_db st) (drawn_target dr) = Some item
           \<and> st' = st\<lparr>inventory_db :=
                         store_item (drawn_target dr) (moved_item dr item) (inventory_db st),
                       transaction_history :=
                         transaction_history st @ [frame_transaction now dr item]\<rparr>"
  using assms
  by (auto simp: process_vision_frame_eq frame_changes_def split: option.splits if_splits)

lemma length_store_item: "length (store_item k v db) = length db"
  by (simp add: store_item_def)

lemma nth_store_item:
  "j < length db \<Longrightarrow> store_item k v db ! j = (if fst (db ! j) = k then (k, v) else db ! j)"
  by (simp add: store_item_def)

lemma store_item_changes_values:
  assumes "map_of db k = Some item" "v \<noteq> item"
  shows "map snd (store_item k v db) \<noteq> map snd db"
proof
  assume eq: "map snd (store_item k v db) = map snd db"
  from assms(1) have "(k, item) \<in> set db" by (rule map_of_SomeD)
  then obtain j where j: "j < length db" and dj: "db ! j = (k, item)"
    by (auto simp: in_set_conv_nth)
  from eq have "map snd (store_item k v db) ! j = map snd db ! j" by simp
  with j dj have "v = item" by (simp add: nth_store_item length_store_item)
  with assms(2) show False by simp
qed

lemma moved_item_neq: "moved_item dr item \<noteq> item"
proof
  assume "moved_item dr item = item"
  then have "current_stock (moved_item dr item) = current_stock item" by simp
  then show False by (simp add: moved_item_def stock_change_def split: if_splits)
qed

lemma process_vision_frame_other_records:
  assumes "process_vision_frame now dr st = Inr st'"
  shows "length (inventory_db st') = length (inventory_db st)
         \<and> (\<forall>j<length (inventory_db st). fst (inventory_db st ! j) \<noteq> drawn_target dr
               \<longrightarrow> inventory_db st' ! j = inventory_db st ! j)"
  using process_vision_frame_cases [OF assms]
  by (auto simp: length_store_item nth_store_item)

section \<open>The alert tier\<close>

text \<open>
  C2, as the specification states it: every record of the returned snapshot carries the
  tier of its stock. The code recomputes \<^verbatim>\<open>alert_status\<close> only inside
  \<^verbatim>\<open>if new_count != old_count\<close>, so a record whose count did not change keeps the status
  it came with: here stock 0 stays \<^verbatim>\<open>"OK"\<close>, where the evaluation gives
  \<^verbatim>\<open>"CRITICAL"\<close>.
\<close>

theorem alert_tier_stale_when_unchanged:
  "fst (process_frame_update ''2024-01-01 00:00:00''
          [(1, \<lparr>name = ''Laptop Box'', min_stock = 2, current_stock = 0, alert_status = ''OK''\<rparr>)] [])
     = [(1, \<lparr>name = ''Laptop Box'', min_stock = 2, current_stock = 0, alert_status = ''OK''\<rparr>)]
   \<and> tier_str (evaluate 0 2) = ''CRITICAL''"
  by (simp add: process_frame_update_fst reconcile_item_def delta_def observed_count_def evaluate_def)

text \<open>
  C2, amended: a record whose stock the cycle changes carries the tier of its new stock;
  a record whose observed count equals its stock is returned exactly as it came, tier
  included, so it carries the tier of its stock if and only if it did before the cycle.
  Hence a snapshot in which every record carries the tier of its stock is returned as
  such a snapshot. The same holds for \<^verbatim>\<open>process_vision_frame\<close>, which leaves every record
  stored under another key than the target as it is.
\<close>

theorem alert_tier_after_cycle:
  "(i < length S \<and> (delta tr (S ! i) \<noteq> 0 \<or> tier_ok (snd (S ! i)))
      \<longrightarrow> tier_ok (snd (fst (process_frame_update now S tr) ! i)))
   \<and> (i < length S \<and> delta tr (S ! i) = 0
      \<longrightarrow> fst (process_frame_update now S tr) ! i = S ! i)
   \<and> (tiers_ok S \<longrightarrow> tiers_ok (fst (process_frame_update now S tr)))
   \<and> (tiers_ok (inventory_db st) \<and> process_vision_frame now dr st = Inr st'
        \<longrightarrow> tiers_ok (inventory_db st'))
   \<and> (process_vision_frame now dr st = Inr st' \<and> j < length (inventory_db st)
        \<and> fst (inventory_db st ! j) \<noteq> drawn_target dr
        \<longrightarrow> inventory_db st' ! j = inventory_db st ! j)"
proof (intro conjI impI)
  assume "i < length S \<and> (delta tr (S ! i) \<noteq> 0 \<or> tier_ok (snd (S ! i)))"
  then show "tier_ok (snd (fst (process_frame_update now S tr) ! i))"
    by (simp add: process_frame_update_fst tier_ok_reconcile_item)
next
  assume "i < length S \<and> delta tr (S ! i) = 0"
  then show "fst (process_frame_update now S tr) ! i = S ! i"
    by (simp add: process_frame_update_fst reconcile_item_def)
next
  assume "tiers_ok S"
  then show "tiers_ok (fst (process_frame_update now S tr))"
    by (simp add: tiers_ok_def process_frame_update_fst list_all_iff tier_ok_reconcile_item)
next
  assume a: "tiers_ok (inventory_db st) \<and> process_vision_frame now dr st = Inr st'"
  from process_vision_frame_cases [of now dr st st'] a
  show "tiers_ok (inventory_db st')"
    unfolding tiers_ok_def
    by (auto intro!: list_all_store_item simp: tier_ok_new_status)
next
  assume "process_vision_frame now dr st = Inr st' \<and> j < length (inventory_db st)
        \<and> fst (inventory_db st ! j) \<noteq> drawn_target dr"
  with process_vision_frame_other_records [of now dr st st']
  show "inventory_db st' ! j = inventory_db st ! j" by simp
qed

theorem alert_tier_after_cycle_witness:
  "(1::nat) < length default_inventory_state
   \<and> delta [1, 1, 1, 1, 1, 2] (default_inventory_state ! 0) = 0
   \<and> delta [1, 1, 1, 1, 1, 2] (default_inventory_state ! 1) \<noteq> 0
   \<and> fst (process_frame_update ''2024-01-01 00:00:00'' default_inventory_state [1, 1, 1, 1, 1, 2]) ! 0
       = default_inventory_state ! 0
   \<and> tier_ok (snd (fst (process_frame_update ''2024-01-01 00:00:00'' default_inventory_state
                           [1, 1, 1, 1, 1, 2]) ! 1))
   \<and> tiers_ok default_inventory_state
   \<and> tiers_ok (fst (process_frame_update ''2024-01-01 00:00:00'' default_inventory_state
                      [1, 1, 1, 1, 1, 2]))
   \<and> tiers_ok (inventory_db initial_api_state)
   \<and> process_vision_frame ''2024-01-01 00:00:00''
        \<lparr>drawn_target = 3, drawn_action = REMOVE, drawn_below = True\<rparr> initial_api_state
      = Inr \<lparr>inventory_db =
               [(1, \<lparr>name = ''Laptop Box'', min_stock = 2, current_stock = 5, alert_status = ''OK'', id' = 1\<rparr>),
                (2, \<lparr>name = ''Accessory Kit'', min_stock = 5, current_stock = 10, alert_status = ''OK'', id' = 2\<rparr>),
                (3, \<lparr>name = ''Monitor Stand'', min_stock = 1, current_stock = 2, alert_status = ''OK'', id' = 3\<rparr>)],
             transaction_history =
               [\<lparr>item_id = 3, item_name = ''Monitor Stand'', timestamp = ''2024-01-01 00:00:00'',
                 action = ''REMOVEED'', quantity_change = - 1\<rparr>]\<rparr>
   \<and> tiers_ok
        [(1, \<lparr>name = ''Laptop Box'', min_stock = 2, current_stock = 5, alert_status = ''OK'', id' = 1\<rparr>),
         (2, \<lparr>name = ''Accessory Kit'', min_stock = 5, current_stock = 10, alert_status = ''OK'', id' = 2\<rparr>),
         (3, \<lparr>name = ''Monitor Stand'', min_stock = 1, current_stock = 2, alert_status = ''OK'', id' = 3\<rparr>)]
   \<and> fst (inventory_db initial_api_state ! 0) \<noteq> 3
   \<and> inventory_db initial_api_state ! 0
       = (1, \<lparr>name = ''Laptop Box'', min_stock = 2, current_stock = 5, alert_status = ''OK'', id' = 1\<rparr>)"
proof -
  let ?now = "''2024-01-01 00:00:00''"
  let ?tr = "[1, 1, 1, 1, 1, 2] :: int list"
  let ?dr = "\<lparr>drawn_target = 3, drawn_action = REMOVE, drawn_below = True\<rparr>"
  let ?st' = "\<lparr>inventory_db =
               [(1, \<lparr>name = ''Laptop Box'', min_stock = 2, current_stock = 5, alert_status = ''OK'', id' = 1\<rparr>),
                (2, \<lparr>name = ''Accessory Kit'', min_stock = 5, current_stock = 10, alert_status = ''OK'', id' = 2\<rparr>),
                (3, \<lparr>name = ''Monitor Stand'', min_stock = 1, current_stock = 2, alert_status = ''OK'', id' = 3\<rparr>)],
             transaction_history =
               [\<lparr>item_id = 3, item_name = ''Monitor Stand'', timestamp = ?now,
                 action = ''REMOVEED'', quantity_change = - 1\<rparr>]\<rparr>"
  have l0: "(0::nat) < length default_inventory_state"
    and l1: "(1::nat) < length default_inventory_state"
    by (simp_all add: default_inventory_state_eq)
  have d0: "delta ?tr (default_inventory_state ! 0) = 0"
    by (simp add: default_inventory_state_eq delta_def observed_count_def)
  have d1: "delta ?tr (default_inventory_state ! 1) \<noteq> 0"
    by (simp add: default_inventory_state_eq delta_def observed_count_def)
  have t: "tiers_ok default_inventory_state"
    by (simp add: default_inventory_state_eq tiers_ok_def tier_ok_def evaluate_def)
  have a: "tiers_ok (inventory_db initial_api_state)"
    by (simp add: initial_api_state_def INVENTORY_ITEMS_def tiers_ok_def tier_ok_def evaluate_def)
  have j: "(0::nat) < length (inventory_db initial_api_state)"
    and k: "fst (inventory_db initial_api_state ! 0) \<noteq> 3"
    by (simp_all add: initial_api_state_def INVENTORY_ITEMS_def)
  have r: "process_vision_frame ?now ?dr initial_api_state = Inr ?st'"
    by (simp add: process_vision_frame_def initial_api_state_def INVENTORY_ITEMS_def
        store_item_def new_status_def)
  note A = alert_tier_after_cycle [of 0 default_inventory_state ?tr ?now initial_api_state ?dr ?st' 0]
  note B = alert_tier_after_cycle [of 1 default_inventory_state ?tr ?now initial_api_state ?dr ?st' 0]
  have c1: "fst (process_frame_update ?now default_inventory_state ?tr) ! 0
              = default_inventory_state ! 0"
    by (rule A [THEN conjunct2, THEN conjunct1, rule_format, OF conjI [OF l0 d0]])
  have c2: "tier_ok (snd (fst (process_frame_update ?now default_inventory_state ?tr) ! 1))"
    by (rule B [THEN conjunct1, rule_format, OF conjI [OF l1 disjI1 [OF d1]]])
  have c3: "tiers_ok (fst (process_frame_update ?now default_inventory_state ?tr))"
    by (rule A [THEN conjunct2, THEN conjunct2, THEN conjunct1, rule_format, OF t])
  have "tiers_ok (inventory_db ?st')"
    by (rule A [THEN conjunct2, THEN conjunct2, THEN conjunct2, THEN conjunct1, rule_format,
          OF conjI [OF a r]])
  then have c4: "tiers_ok
        [(1, \<lparr>name = ''Laptop Box'', min_stock = 2, current_stock = 5, alert_status = ''OK'', id' = 1\<rparr>),
         (2, \<lparr>name = ''Accessory Kit'', min_stock = 5, current_stock = 10, alert_status = ''OK'', id' = 2\<rparr>),
         (3, \<lparr>name = ''Monitor Stand'', min_stock = 1, current_stock = 2, alert_status = ''OK'', id' = 3\<rparr>)]"
    by simp
  from k have k': "fst (inventory_db initial_api_state ! 0) \<noteq> drawn_target ?dr" by simp
  have "inventory_db ?st' ! 0 = inventory_db initial_api_state ! 0"
    by (rule A [THEN conjunct2, THEN conjunct2, THEN conjunct2, THEN conjunct2, rule_format,
          OF conjI [OF r conjI [OF j k']]])
  then have c5: "inventory_db initial_api_state ! 0
       = (1, \<lparr>name = ''Laptop Box'', min_stock = 2, current_stock = 5, alert_status = ''OK'', id' = 1\<rparr>)"
    by simp
  show ?thesis
    by (intro conjI) (rule l1 d0 d1 c1 c2 t c3 a r c4 k c5)+
qed


section \<open>No negative stock\<close>

text \<open>
  C5: if every stock of the given state is non-negative, every stock of the state
  returned by \<^verbatim>\<open>process_frame_update\<close> is, and every stock of the store that
  \<^verbatim>\<open>process_vision_frame\<close> leaves is (lines 64 to 66 turn a \<^verbatim>\<open>REMOVE\<close> at stock 0 into no
  change).
\<close>

theorem stock_never_negative:
  "(nonneg_stock S \<longrightarrow> nonneg_stock (fst (process_frame_update now S tr)))
   \<and> (nonneg_stock (inventory_db st) \<and> process_vision_frame now dr st = Inr st'
        \<longrightarrow> nonneg_stock (inventory_db st'))"
proof (intro conjI impI)
  assume "nonneg_stock S"
  then show "nonneg_stock (fst (process_frame_update now S tr))"
    by (auto simp: nonneg_stock_def process_frame_update_fst list_all_iff reconcile_item_def
        observed_count_def)
next
  assume a: "nonneg_stock (inventory_db st) \<and> process_vision_frame now dr st = Inr st'"
  then have n: "nonneg_stock (inventory_db st)" and r: "process_vision_frame now dr st = Inr st'"
    by simp_all
  from process_vision_frame_cases [OF r] consider
      (same) "st' = st"
    | (change) item c where
        "map_of (inventory_db st) (drawn_target dr) = Some item"
        "c = (if drawn_action dr = ADD then 1 else - 1)"
        "drawn_action dr = ADD \<or> 0 < current_stock item"
        "inventory_db st' = store_item (drawn_target dr)
                 (item\<lparr>current_stock := current_stock item + c,
                        alert_status := new_status (item\<lparr>current_stock := current_stock item + c\<rparr>)\<rparr>)
                 (inventory_db st)"
    by blast
  then show "nonneg_stock (inventory_db st')"
  proof cases
    case same
    with n show ?thesis by simp
  next
    case (change item c)
    note m = change(1) and c = change(2,3) and db = change(4)
    from m have "(drawn_target dr, item) \<in> set (inventory_db st)" by (rule map_of_SomeD)
    with n have "0 \<le> current_stock item" by (auto simp: nonneg_stock_def list_all_iff)
    with c have p: "0 \<le> current_stock item + c" by (auto split: if_splits)
    from n have l: "list_all (\<lambda>e. 0 \<le> current_stock (snd e)) (inventory_db st)"
      by (simp add: nonneg_stock_def)
    show ?thesis
      unfolding db nonneg_stock_def by (rule list_all_store_item [OF l]) (simp add: p)
  qed
qed

theorem stock_never_negative_witness:
  "nonneg_stock default_inventory_state
   \<and> nonneg_stock (fst (process_frame_update ''2024-01-01 00:00:00'' default_inventory_state [1, 1, 2]))
   \<and> nonneg_stock (inventory_db initial_api_state)
   \<and> process_vision_frame ''2024-01-01 00:00:00''
        \<lparr>drawn_target = 3, drawn_action = REMOVE, drawn_below = True\<rparr> initial_api_state
      = Inr \<lparr>inventory_db =
               [(1, \<lparr>name = ''Laptop Box'', min_stock = 2, current_stock = 5, alert_status = ''OK'', id' = 1\<rparr>),
                (2, \<lparr>name = ''Accessory Kit'', min_stock = 5, current_stock = 10, alert_status = ''OK'', id' = 2\<rparr>),
                (3, \<lparr>name = ''Monitor Stand'', min_stock = 1, current_stock = 2, alert_status = ''OK'', id' = 3\<rparr>)],
             transaction_history =
               [\<lparr>item_id = 3, item_name = ''Monitor Stand'', timestamp = ''2024-01-01 00:00:00'',
                 action = ''REMOVEED'', quantity_change = - 1\<rparr>]\<rparr>
   \<and> nonneg_stock
        [(1, \<lparr>name = ''Laptop Box'', min_stock = 2, current_stock = 5, alert_status = ''OK'', id' = 1\<rparr>),
         (2, \<lparr>name = ''Accessory Kit'', min_stock = 5, current_stock = 10, alert_status = ''OK'', id' = 2\<rparr>),
         (3, \<lparr>name = ''Monitor Stand'', min_stock = 1, current_stock = 2, alert_status = ''OK'', id' = 3\<rparr>)]"
proof -
  let ?now = "''2024-01-01 00:00:00''"
  let ?dr = "\<lparr>drawn_target = 3, drawn_action = REMOVE, drawn_below = True\<rparr>"
  let ?st' = "\<lparr>inventory_db =
               [(1, \<lparr>name = ''Laptop Box'', min_stock = 2, current_stock = 5, alert_status = ''OK'', id' = 1\<rparr>),
                (2, \<lparr>name = ''Accessory Kit'', min_stock = 5, current_stock = 10, alert_status = ''OK'', id' = 2\<rparr>),
                (3, \<lparr>name = ''Monitor Stand'', min_stock = 1, current_stock = 2, alert_status = ''OK'', id' = 3\<rparr>)],
             transaction_history =
               [\<lparr>item_id = 3, item_name = ''Monitor Stand'', timestamp = ?now,
                 action = ''REMOVEED'', quantity_change = - 1\<rparr>]\<rparr>"
  have t: "nonneg_stock default_inventory_state"
    by (simp add: default_inventory_state_eq nonneg_stock_def)
  have a: "nonneg_stock (inventory_db initial_api_state)"
    by (simp add: initial_api_state_def INVENTORY_ITEMS_def nonneg_stock_def)
  have r: "process_vision_frame ?now ?dr initial_api_state = Inr ?st'"
    by (simp add: process_vision_frame_def initial_api_state_def INVENTORY_ITEMS_def
        store_item_def new_status_def)
  from stock_never_negative [of default_inventory_state ?now "[1, 1, 2]" initial_api_state ?dr ?st']
    t a r
  show ?thesis by simp
qed

lemma str_int_1: "str_int 1 = ''1''"
  by (simp add: str_int_def str_nat.simps digit_char_def)

lemma str_int_2: "str_int 2 = ''2''"
  by (simp add: str_int_def str_nat.simps digit_char_def)

lemma filter_first:
  assumes "i < length xs" "P (xs ! i)" "\<forall>j<i. \<not> P (xs ! j)"
  shows "filter P xs = xs ! i # filter P (drop (Suc i) xs)"
proof -
  have "filter P (take i xs) = []"
    using assms(1,3) by (auto simp: filter_empty_conv in_set_conv_nth)
  moreover have "xs = take i xs @ xs ! i # drop (Suc i) xs"
    using assms(1) by (rule id_take_nth_drop)
  ultimately show ?thesis
    using assms(2) by (metis append_Nil filter.simps(2) filter_append)
qed

lemma observed_count_unknown:
  "iid \<notin> set tr \<Longrightarrow> observed_count tr iid = 0"
  by (simp add: observed_count_def)

lemma process_vision_frame_unchanged:
  "\<not> frame_changes dr st \<Longrightarrow> process_vision_frame now dr st = Inr st' \<Longrightarrow> st' = st"
  by (cases "drawn_action dr")
     (auto simp: frame_changes_def process_vision_frame_def Let_def split: if_splits option.splits)

lemma process_vision_frame_changed:
  assumes "frame_changes dr st" "process_vision_frame now dr st = Inr st'"
  shows "length (transaction_history st') = Suc (length (transaction_history st))"
  using assms
  by (cases "drawn_action dr")
     (auto simp: frame_changes_def process_vision_frame_def Let_def split: if_splits option.splits)

lemma map_fst_store_item: "map fst (store_item k v db) = map fst db"
  by (induction db) (auto simp: store_item_def)

lemma process_vision_frame_keys:
  "process_vision_frame now dr st = Inr st' \<Longrightarrow> map fst (inventory_db st') = map fst (inventory_db st)"
  using process_vision_frame_cases [of now dr st st'] by (auto simp: map_fst_store_item)

lemma process_vision_frame_total:
  "drawn_target dr \<in> fst ` set (inventory_db st) \<Longrightarrow> \<exists>st'. process_vision_frame now dr st = Inr st'"
  by (auto simp: process_vision_frame_def Let_def map_of_eq_None_iff split: option.splits)

section \<open>The update of one item\<close>

text \<open>
  C4, as the specification states it: every item with a non-zero delta has its stock set
  to the observed count and a transaction constructed for it. On the default inventory
  and the empty list of tracked identifiers the second item has delta -10, and the only
  transaction of the call is the first item's.
\<close>

theorem no_transaction_for_second_changed_item:
  "delta [] (default_inventory_state ! 1) = - 10
   \<and> transactions (process_frame_update ''2024-01-01 00:00:00'' default_inventory_state [])
       = [\<lparr>item_id = ''1'', item_name = ''Laptop Box'', timestamp = ''2024-01-01 00:00:00'',
           action = ''REMOVED'', quantity_change = 5\<rparr>]"
  by (simp add: transactions_def process_frame_update_snd changed_items_def delta_def
      observed_count_def default_inventory_state_eq transaction_of_def str_int_1)

text \<open>
  C4, amended: for the item at every position \<open>i\<close> of the state, with
  \<open>delta = observed_count - old_stock\<close>: if \<open>delta = 0\<close> the record is returned as it
  was; if \<open>delta \<noteq> 0\<close> the stock becomes the observed count and the alert status the
  tier of the new stock, the other fields staying; and if the item is the first one in
  catalog order with \<open>delta \<noteq> 0\<close>, the call returns its transaction, with action
  \<^verbatim>\<open>ADDED\<close> when \<open>delta > 0\<close>, \<^verbatim>\<open>REMOVED\<close> when \<open>delta < 0\<close>, and quantity \<open>\<bar>delta\<bar>\<close>.
\<close>

theorem reconcile_per_item:
  "i < length S \<Longrightarrow>
   (delta tr (S ! i) = 0 \<longrightarrow> fst (process_frame_update now S tr) ! i = S ! i)
   \<and> (delta tr (S ! i) \<noteq> 0 \<longrightarrow>
        fst (process_frame_update now S tr) ! i
          = (fst (S ! i),
             (snd (S ! i))\<lparr>current_stock := observed_count tr (fst (S ! i)),
                            alert_status :=
                              tier_str (evaluate (observed_count tr (fst (S ! i))) (min_stock (snd (S ! i))))\<rparr>))
   \<and> (delta tr (S ! i) \<noteq> 0 \<and> (\<forall>j<i. delta tr (S ! j) = 0) \<longrightarrow>
        snd (process_frame_update now S tr)
          = Some \<lparr>item_id = str_int (fst (S ! i)),
                  item_name = name (snd (S ! i)),
                  timestamp = now,
                  action = (if delta tr (S ! i) > 0 then ''ADDED'' else ''REMOVED''),
                  quantity_change = \<bar>delta tr (S ! i)\<bar>\<rparr>)"
proof (intro conjI impI)
  assume i: "i < length S"
  { assume "delta tr (S ! i) = 0"
    with i show "fst (process_frame_update now S tr) ! i = S ! i"
      by (simp add: process_frame_update_fst reconcile_item_def) }
  { assume "delta tr (S ! i) \<noteq> 0"
    with i show "fst (process_frame_update now S tr) ! i
          = (fst (S ! i),
             (snd (S ! i))\<lparr>current_stock := observed_count tr (fst (S ! i)),
                            alert_status :=
                              tier_str (evaluate (observed_count tr (fst (S ! i))) (min_stock (snd (S ! i))))\<rparr>)"
      by (simp add: process_frame_update_fst reconcile_item_def) }
  { assume a: "delta tr (S ! i) \<noteq> 0 \<and> (\<forall>j<i. delta tr (S ! j) = 0)"
    have "changed_items S tr = S ! i # filter (\<lambda>e. delta tr e \<noteq> 0) (drop (Suc i) S)"
      unfolding changed_items_def using i a by (intro filter_first) simp_all
    then show "snd (process_frame_update now S tr)
          = Some \<lparr>item_id = str_int (fst (S ! i)),
                  item_name = name (snd (S ! i)),
                  timestamp = now,
                  action = (if delta tr (S ! i) > 0 then ''ADDED'' else ''REMOVED''),
                  quantity_change = \<bar>delta tr (S ! i)\<bar>\<rparr>"
      by (simp add: process_frame_update_snd transaction_of_def) }
qed

theorem reconcile_per_item_witness:
  "(1::nat) < length default_inventory_state
   \<and> delta [1, 1, 1, 1, 1, 2] (default_inventory_state ! 0) = 0
   \<and> delta [1, 1, 1, 1, 1, 2] (default_inventory_state ! 1) = - 9
   \<and> fst (process_frame_update ''2024-01-01 00:00:00'' default_inventory_state [1, 1, 1, 1, 1, 2]) ! 0
       = (1, \<lparr>name = ''Laptop Box'', min_stock = 2, current_stock = 5, alert_status = ''OK''\<rparr>)
   \<and> fst (process_frame_update ''2024-01-01 00:00:00'' default_inventory_state [1, 1, 1, 1, 1, 2]) ! 1
       = (2, \<lparr>name = ''Accessory Kit'', min_stock = 5, current_stock = 1, alert_status = ''LOW''\<rparr>)
   \<and> snd (process_frame_update ''2024-01-01 00:00:00'' default_inventory_state [1, 1, 1, 1, 1, 2])
       = Some \<lparr>item_id = ''2'', item_name = ''Accessory Kit'', timestamp = ''2024-01-01 00:00:00'',
               action = ''REMOVED'', quantity_change = 9\<rparr>"
proof -
  let ?now = "''2024-01-01 00:00:00''"
  let ?tr = "[1, 1, 1, 1, 1, 2] :: int list"
  have l0: "(0::nat) < length default_inventory_state"
    and l1: "(1::nat) < length default_inventory_state"
    by (simp_all add: default_inventory_state_eq)
  have d0: "delta ?tr (default_inventory_state ! 0) = 0"
    by (simp add: default_inventory_state_eq delta_def observed_count_def)
  have d1: "delta ?tr (default_inventory_state ! 1) = - 9"
    by (simp add: default_inventory_state_eq delta_def observed_count_def)
  have h: "\<forall>j<1. delta ?tr (default_inventory_state ! j) = 0"
    using d0 by simp
  have o: "observed_count ?tr 2 = 1"
    by (simp add: observed_count_def)
  from reconcile_per_item [OF l0, of ?tr ?now] reconcile_per_item [OF l1, of ?tr ?now] l1 d0 d1 h o
  show ?thesis
    by (simp add: default_inventory_state_eq evaluate_def str_int_2)
qed

section \<open>Determinism and the clock\<close>

text \<open>
  C7, as the specification states it: two invocations on the same state and the same
  tracked identifiers return identical transactions in every field. The transaction
  carries \<^verbatim>\<open>time.strftime("%Y-%m-%d %H:%M:%S")\<close>, read from the clock during the call:
  two invocations one second apart differ.
\<close>

theorem process_frame_update_depends_on_clock:
  "process_frame_update ''2024-01-01 00:00:00'' default_inventory_state []
     \<noteq> process_frame_update ''2024-01-01 00:00:01'' default_inventory_state []"
  by (simp add: prod_eq_iff process_frame_update_snd changed_items_def delta_def
      observed_count_def default_inventory_state_eq transaction_of_def)

text \<open>
  C7, amended: the returned state does not depend on the clock, and the returned
  transaction depends on it in its \<^verbatim>\<open>timestamp\<close> only: the result at clock reading
  \<open>now'\<close> is the result at clock reading \<open>now\<close> with the timestamp replaced by \<open>now'\<close>.
\<close>

theorem process_frame_update_clock:
  "fst (process_frame_update now' S tr) = fst (process_frame_update now S tr)
   \<and> snd (process_frame_update now' S tr)
       = map_option (\<lambda>t. t\<lparr>timestamp := now'\<rparr>) (snd (process_frame_update now S tr))"
  by (simp add: process_frame_update_fst process_frame_update_snd transaction_of_def
      split: list.splits)

section \<open>An observation without recognizable identifiers\<close>

text \<open>
  C9, as the specification states it: such an observation leaves the snapshot unchanged
  and produces no transaction. The code counts 0 for every item, so from the default
  inventory and the tracked identifiers \<^verbatim>\<open>[42]\<close> every stock becomes 0 and a transaction
  is returned.
\<close>

theorem unrecognized_observation_changes_state:
  "process_frame_update ''2024-01-01 00:00:00'' default_inventory_state [42]
     = ([(1, \<lparr>name = ''Laptop Box'', min_stock = 2, current_stock = 0, alert_status = ''CRITICAL''\<rparr>),
         (2, \<lparr>name = ''Accessory Kit'', min_stock = 5, current_stock = 0, alert_status = ''CRITICAL''\<rparr>),
         (3, \<lparr>name = ''Monitor Stand'', min_stock = 1, current_stock = 0, alert_status = ''CRITICAL''\<rparr>)],
        Some \<lparr>item_id = ''1'', item_name = ''Laptop Box'', timestamp = ''2024-01-01 00:00:00'',
              action = ''REMOVED'', quantity_change = 5\<rparr>)"
  by (simp add: prod_eq_iff process_frame_update_fst process_frame_update_snd changed_items_def
      reconcile_item_def delta_def observed_count_def default_inventory_state_eq transaction_of_def
      evaluate_def str_int_1)

text \<open>
  C9, amended: when none of the tracked identifiers is a key of the state, the call
  returns what it returns for the empty list: every record with a non-zero stock gets
  stock 0 and status \<^verbatim>\<open>CRITICAL\<close>, every record with stock 0 stays as it is, and there is
  no transaction exactly when every stock was 0 already. (The function is total: it
  completes on every such input.)
\<close>

theorem unrecognized_observation_zeroes_stock:
  assumes "set tr \<inter> fst ` set S = {}"
  shows "process_frame_update now S tr = process_frame_update now S []
         \<and> fst (process_frame_update now S tr) = map zero_stock S
         \<and> (snd (process_frame_update now S tr) = None) = list_all (\<lambda>e. current_stock (snd e) = 0) S"
proof -
  have z: "observed_count tr (fst e) = 0" if "e \<in> set S" for e
    using that assms by (intro observed_count_unknown) auto
  have d: "delta tr e = - current_stock (snd e)" if "e \<in> set S" for e
    using z [OF that] by (simp add: delta_def)
  have d0: "delta [] e = - current_stock (snd e)" for e
    by (simp add: delta_def observed_count_def)
  have r: "reconcile_item tr e = zero_stock e" if "e \<in> set S" for e
    using z [OF that] d [OF that] by (simp add: reconcile_item_def zero_stock_def evaluate_def)
  have r0: "reconcile_item [] e = zero_stock e" for e
    by (simp add: reconcile_item_def zero_stock_def evaluate_def d0 observed_count_def)
  have c: "changed_items S tr = filter (\<lambda>e. current_stock (snd e) \<noteq> 0) S"
    unfolding changed_items_def by (rule filter_cong [OF refl]) (simp add: d)
  have c0: "changed_items S [] = filter (\<lambda>e. current_stock (snd e) \<noteq> 0) S"
    unfolding changed_items_def by (simp add: d0)
  have f: "fst (process_frame_update now S tr) = map zero_stock S"
    unfolding process_frame_update_fst by (rule map_cong [OF refl]) (rule r)
  have f0: "fst (process_frame_update now S []) = map zero_stock S"
    unfolding process_frame_update_fst by (simp add: r0)
  have t: "transaction_of now tr e = transaction_of now [] e" if "e \<in> set S" for e
    using d [OF that] d0 [of e] by (simp add: transaction_of_def)
  have s: "snd (process_frame_update now S tr) = snd (process_frame_update now S [])"
  proof (cases "changed_items S tr")
    case Nil
    with c c0 show ?thesis by (simp add: process_frame_update_snd)
  next
    case (Cons e es)
    then have "e \<in> set (changed_items S tr)" by simp
    then have "e \<in> set S" by (simp add: changed_items_def)
    from t [OF this] Cons c c0 show ?thesis by (simp add: process_frame_update_snd)
  qed
  have n: "(snd (process_frame_update now S tr) = None) = list_all (\<lambda>e. current_stock (snd e) = 0) S"
  proof -
    have "(snd (process_frame_update now S tr) = None)
            = (filter (\<lambda>e. current_stock (snd e) \<noteq> 0) S = [])"
      unfolding process_frame_update_snd c by (simp split: list.splits)
    then show ?thesis by (simp add: filter_empty_conv list_all_iff)
  qed
  from f f0 s n show ?thesis by (simp add: prod_eq_iff)
qed

theorem unrecognized_observation_zeroes_stock_witness:
  "set [42] \<inter> fst ` set default_inventory_state = {}
   \<and> process_frame_update ''2024-01-01 00:00:00'' default_inventory_state [42]
       = process_frame_update ''2024-01-01 00:00:00'' default_inventory_state []
   \<and> fst (process_frame_update ''2024-01-01 00:00:00'' default_inventory_state [42])
       = map zero_stock default_inventory_state
   \<and> snd (process_frame_update ''2024-01-01 00:00:00'' default_inventory_state [42]) \<noteq> None"
proof -
  have h: "set [42] \<inter> fst ` set default_inventory_state = {}"
    by (simp add: default_inventory_state_eq)
  have n: "\<not> list_all (\<lambda>e. current_stock (snd e) = 0) default_inventory_state"
    by (simp add: default_inventory_state_eq)
  from unrecognized_observation_zeroes_stock [OF h, of "''2024-01-01 00:00:00''"] h n
  show ?thesis by blast
qed

section \<open>Reading the inventory status\<close>

text \<open>
  C3, as the specification states it: a status read mutates nothing. The handler of
  \<^verbatim>\<open>GET /inventory/status\<close> calls \<^verbatim>\<open>process_vision_frame()\<close> first: on the draw
  (target 1, \<^verbatim>\<open>ADD\<close>, test passed) the read leaves the stock of item 1 at 6 instead of 5
  and one transaction in the history that was empty.
\<close>

theorem status_read_mutates:
  "get_inventory_status ''2024-01-01 00:00:00''
      \<lparr>drawn_target = 1, drawn_action = ADD, drawn_below = True\<rparr> initial_api_state
   = Inr (\<lparr>inventory_db =
             [(1, \<lparr>name = ''Laptop Box'', min_stock = 2, current_stock = 6, alert_status = ''OK'', id' = 1\<rparr>),
              (2, \<lparr>name = ''Accessory Kit'', min_stock = 5, current_stock = 10, alert_status = ''OK'', id' = 2\<rparr>),
              (3, \<lparr>name = ''Monitor Stand'', min_stock = 1, current_stock = 3, alert_status = ''OK'', id' = 3\<rparr>)],
           transaction_history =
             [\<lparr>item_id = 1, item_name = ''Laptop Box'', timestamp = ''2024-01-01 00:00:00'',
               action = ''ADDED'', quantity_change = 1\<rparr>]\<rparr>,
          [\<lparr>name = ''Laptop Box'', min_stock = 2, current_stock = 6, alert_status = ''OK'', id' = 1\<rparr>,
           \<lparr>name = ''Accessory Kit'', min_stock = 5, current_stock = 10, alert_status = ''OK'', id' = 2\<rparr>,
           \<lparr>name = ''Monitor Stand'', min_stock = 1, current_stock = 3, alert_status = ''OK'', id' = 3\<rparr>])
   \<and> map_of (inventory_db initial_api_state) 1
       = Some \<lparr>name = ''Laptop Box'', min_stock = 2, current_stock = 5, alert_status = ''OK'', id' = 1\<rparr>
   \<and> transaction_history initial_api_state = []"
  by (simp add: get_inventory_status_def process_vision_frame_def initial_api_state_def
      INVENTORY_ITEMS_def store_item_def new_status_def)

text \<open>
  C3, amended: a status read runs one step of \<^verbatim>\<open>process_vision_frame\<close> and answers with
  the items of the store after that step. When the step's draw makes no change (action
  \<^verbatim>\<open>NONE\<close>, test failed, or \<^verbatim>\<open>REMOVE\<close> at stock 0 or less) the read leaves the store
  and the history as they were. Otherwise the record stored under the drawn target has
  its stock moved by one (up for \<^verbatim>\<open>ADD\<close>, down for \<^verbatim>\<open>REMOVE\<close>) and its status evaluated
  anew, every other record stays, one transaction is appended to the history, and the
  answer differs from the items the store held. The keys of the store never change. So
  a second read returns the answer of the first, and leaves the state of the first,
  exactly when its own step makes no change.
\<close>

theorem status_read_runs_one_frame:
  assumes "get_inventory_status now dr st = Inr (st', items)"
  shows "items = map snd (inventory_db st')
         \<and> (\<not> frame_changes dr st \<longrightarrow> st' = st)
         \<and> (frame_changes dr st \<longrightarrow>
              (case map_of (inventory_db st) (drawn_target dr) of
                 None \<Rightarrow> False
               | Some item \<Rightarrow>
                   inventory_db st'
                     = map (\<lambda>e. if fst e = drawn_target dr
                                 then (drawn_target dr, moved_item dr item) else e)
                         (inventory_db st)
                   \<and> transaction_history st'
                       = transaction_history st @ [frame_transaction now dr item])
              \<and> st' \<noteq> st \<and> items \<noteq> map snd (inventory_db st))
         \<and> map fst (inventory_db st') = map fst (inventory_db st)
         \<and> (get_inventory_status now2 dr2 st' = Inr (st2, items2) \<longrightarrow>
              (items2 = items) = (\<not> frame_changes dr2 st')
              \<and> (st2 = st') = (\<not> frame_changes dr2 st'))"
proof -
  have read: "its = map snd (inventory_db s')
        \<and> (\<not> frame_changes d s \<longrightarrow> s' = s)
        \<and> (frame_changes d s \<longrightarrow>
              (case map_of (inventory_db s) (drawn_target d) of
                 None \<Rightarrow> False
               | Some item \<Rightarrow>
                   inventory_db s'
                     = map (\<lambda>e. if fst e = drawn_target d
                                 then (drawn_target d, moved_item d item) else e)
                         (inventory_db s)
                   \<and> transaction_history s'
                       = transaction_history s @ [frame_transaction n d item])
              \<and> s' \<noteq> s \<and> its \<noteq> map snd (inventory_db s))"
    if g: "get_inventory_status n d s = Inr (s', its)" for n d s s' its
  proof -
    from g have r: "process_vision_frame n d s = Inr s'"
      and i: "its = map snd (inventory_db s')"
      by (auto simp: get_inventory_status_def split: sum.splits)
    have u: "s' = s" if "\<not> frame_changes d s"
      using that r by (rule process_vision_frame_unchanged)
    have c: "(case map_of (inventory_db s) (drawn_target d) of
                 None \<Rightarrow> False
               | Some item \<Rightarrow>
                   inventory_db s'
                     = map (\<lambda>e. if fst e = drawn_target d
                                 then (drawn_target d, moved_item d item) else e)
                         (inventory_db s)
                   \<and> transaction_history s'
                       = transaction_history s @ [frame_transaction n d item])
              \<and> s' \<noteq> s \<and> its \<noteq> map snd (inventory_db s)" if fc: "frame_changes d s"
    proof -
      from process_vision_frame_changes [OF fc r] obtain item where
        m: "map_of (inventory_db s) (drawn_target d) = Some item"
        and s': "s' = s\<lparr>inventory_db :=
                         store_item (drawn_target d) (moved_item d item) (inventory_db s),
                       transaction_history :=
                         transaction_history s @ [frame_transaction n d item]\<rparr>"
        by blast
      have db: "inventory_db s' = store_item (drawn_target d) (moved_item d item) (inventory_db s)"
        and th: "transaction_history s' = transaction_history s @ [frame_transaction n d item]"
        by (simp_all add: s')
      from th have ne: "s' \<noteq> s" by auto
      from store_item_changes_values [OF m moved_item_neq, of d]
      have "its \<noteq> map snd (inventory_db s)" by (simp add: i db)
      with m db th ne show ?thesis by (simp add: store_item_def)
    qed
    from i u c show ?thesis by blast
  qed
  from assms have r: "process_vision_frame now dr st = Inr st'"
    by (auto simp: get_inventory_status_def split: sum.splits)
  have k: "map fst (inventory_db st') = map fst (inventory_db st)"
    using r by (rule process_vision_frame_keys)
  have two: "(items2 = items) = (\<not> frame_changes dr2 st') \<and> (st2 = st') = (\<not> frame_changes dr2 st')"
    if g2: "get_inventory_status now2 dr2 st' = Inr (st2, items2)"
  proof -
    from read [OF assms] have i: "items = map snd (inventory_db st')" by simp
    from read [OF g2] i show ?thesis by auto
  qed
  from read [OF assms] k two show ?thesis by blast
qed

theorem status_read_runs_one_frame_witness:
  "get_inventory_status ''2024-01-01 00:00:00''
      \<lparr>drawn_target = 1, drawn_action = ADD, drawn_below = True\<rparr> initial_api_state
     = Inr (\<lparr>inventory_db =
               [(1, \<lparr>name = ''Laptop Box'', min_stock = 2, current_stock = 6, alert_status = ''OK'', id' = 1\<rparr>),
                (2, \<lparr>name = ''Accessory Kit'', min_stock = 5, current_stock = 10, alert_status = ''OK'', id' = 2\<rparr>),
                (3, \<lparr>name = ''Monitor Stand'', min_stock = 1, current_stock = 3, alert_status = ''OK'', id' = 3\<rparr>)],
             transaction_history =
               [\<lparr>item_id = 1, item_name = ''Laptop Box'', timestamp = ''2024-01-01 00:00:00'',
                 action = ''ADDED'', quantity_change = 1\<rparr>]\<rparr>,
            [\<lparr>name = ''Laptop Box'', min_stock = 2, current_stock = 6, alert_status = ''OK'', id' = 1\<rparr>,
             \<lparr>name = ''Accessory Kit'', min_stock = 5, current_stock = 10, alert_status = ''OK'', id' = 2\<rparr>,
             \<lparr>name = ''Monitor Stand'', min_stock = 1, current_stock = 3, alert_status = ''OK'', id' = 3\<rparr>])
   \<and> frame_changes \<lparr>drawn_target = 1, drawn_action = ADD, drawn_below = True\<rparr> initial_api_state
   \<and> get_inventory_status ''2024-01-01 00:00:01''
        \<lparr>drawn_target = 3, drawn_action = REMOVE, drawn_below = False\<rparr> initial_api_state
       = Inr (initial_api_state, map snd (inventory_db initial_api_state))
   \<and> \<not> frame_changes \<lparr>drawn_target = 3, drawn_action = REMOVE, drawn_below = False\<rparr> initial_api_state
   \<and> get_inventory_status ''2024-01-01 00:00:01''
        \<lparr>drawn_target = 3, drawn_action = REMOVE, drawn_below = False\<rparr>
        \<lparr>inventory_db =
           [(1, \<lparr>name = ''Laptop Box'', min_stock = 2, current_stock = 6, alert_status = ''OK'', id' = 1\<rparr>),
            (2, \<lparr>name = ''Accessory Kit'', min_stock = 5, current_stock = 10, alert_status = ''OK'', id' = 2\<rparr>),
            (3, \<lparr>name = ''Monitor Stand'', min_stock = 1, current_stock = 3, alert_status = ''OK'', id' = 3\<rparr>)],
         transaction_history =
           [\<lparr>item_id = 1, item_name = ''Laptop Box'', timestamp = ''2024-01-01 00:00:00'',
             action = ''ADDED'', quantity_change = 1\<rparr>]\<rparr>
       = Inr (\<lparr>inventory_db =
                 [(1, \<lparr>name = ''Laptop Box'', min_stock = 2, current_stock = 6, alert_status = ''OK'', id' = 1\<rparr>),
                  (2, \<lparr>name = ''Accessory Kit'', min_stock = 5, current_stock = 10, alert_status = ''OK'', id' = 2\<rparr>),
                  (3, \<lparr>name = ''Monitor Stand'', min_stock = 1, current_stock = 3, alert_status = ''OK'', id' = 3\<rparr>)],
               transaction_history =
                 [\<lparr>item_id = 1, item_name = ''Laptop Box'', timestamp = ''2024-01-01 00:00:00'',
                   action = ''ADDED'', quantity_change = 1\<rparr>]\<rparr>,
              [\<lparr>name = ''Laptop Box'', min_stock = 2, current_stock = 6, alert_status = ''OK'', id' = 1\<rparr>,
               \<lparr>name = ''Accessory Kit'', min_stock = 5, current_stock = 10, alert_status = ''OK'', id' = 2\<rparr>,
               \<lparr>name = ''Monitor Stand'', min_stock = 1, current_stock = 3, alert_status = ''OK'', id' = 3\<rparr>])
   \<and> [\<lparr>name = ''Laptop Box'', min_stock = 2, current_stock = 6, alert_status = ''OK'', id' = 1\<rparr>,
       \<lparr>name = ''Accessory Kit'', min_stock = 5, current_stock = 10, alert_status = ''OK'', id' = 2\<rparr>,
       \<lparr>name = ''Monitor Stand'', min_stock = 1, current_stock = 3, alert_status = ''OK'', id' = 3\<rparr>]
       \<noteq> map snd (inventory_db initial_api_state)"
proof -
  let ?add = "\<lparr>drawn_target = 1, drawn_action = ADD, drawn_below = True\<rparr>"
  let ?no = "\<lparr>drawn_target = 3, drawn_action = REMOVE, drawn_below = False\<rparr>"
  let ?stA = "\<lparr>inventory_db =
               [(1, \<lparr>name = ''Laptop Box'', min_stock = 2, current_stock = 6, alert_status = ''OK'', id' = 1\<rparr>),
                (2, \<lparr>name = ''Accessory Kit'', min_stock = 5, current_stock = 10, alert_status = ''OK'', id' = 2\<rparr>),
                (3, \<lparr>name = ''Monitor Stand'', min_stock = 1, current_stock = 3, alert_status = ''OK'', id' = 3\<rparr>)],
             transaction_history =
               [\<lparr>item_id = 1, item_name = ''Laptop Box'', timestamp = ''2024-01-01 00:00:00'',
                 action = ''ADDED'', quantity_change = 1\<rparr>]\<rparr>"
  let ?itA = "[\<lparr>name = ''Laptop Box'', min_stock = 2, current_stock = 6, alert_status = ''OK'', id' = 1\<rparr>,
             \<lparr>name = ''Accessory Kit'', min_stock = 5, current_stock = 10, alert_status = ''OK'', id' = 2\<rparr>,
             \<lparr>name = ''Monitor Stand'', min_stock = 1, current_stock = 3, alert_status = ''OK'', id' = 3\<rparr>]"
  have gA: "get_inventory_status ''2024-01-01 00:00:00'' ?add initial_api_state = Inr (?stA, ?itA)"
    by (simp add: get_inventory_status_def process_vision_frame_def initial_api_state_def
        INVENTORY_ITEMS_def store_item_def new_status_def)
  have gN: "get_inventory_status ''2024-01-01 00:00:01'' ?no initial_api_state
              = Inr (initial_api_state, map snd (inventory_db initial_api_state))"
    by (simp add: get_inventory_status_def process_vision_frame_def)
  have gN2: "get_inventory_status ''2024-01-01 00:00:01'' ?no ?stA = Inr (?stA, ?itA)"
    by (simp add: get_inventory_status_def process_vision_frame_def)
  have fA: "frame_changes ?add initial_api_state"
    by (simp add: frame_changes_def initial_api_state_def INVENTORY_ITEMS_def)
  have fN: "\<not> frame_changes ?no initial_api_state"
    by (simp add: frame_changes_def)
  from status_read_runs_one_frame [OF gN, of "''2024-01-01 00:00:00''" ?add ?stA ?itA] gA fA
  have 1: "?itA \<noteq> map snd (inventory_db initial_api_state)" by simp
  from status_read_runs_one_frame [OF gA, of "''2024-01-01 00:00:01''" ?no ?stA ?itA] gA gN gN2 fA fN 1
  show ?thesis by simp
qed

section \<open>The store: the argument is not mutated\<close>

lemma item_at_Some: "item_at h a = Some d \<longleftrightarrow> a < length h \<and> h ! a = ItemDict d"
  by (auto simp: item_at_def split: obj.splits)

lemma state_at_Some: "state_at h a = Some es \<longleftrightarrow> a < length h \<and> h ! a = StateDict es"
  by (auto simp: state_at_def split: obj.splits)

lemma item_at_append: "a < length h \<Longrightarrow> item_at (h @ x) a = item_at h a"
  by (simp add: item_at_def nth_append)

lemma item_at_cong:
  "a < length h \<Longrightarrow> a < length h' \<Longrightarrow> h' ! a = h ! a \<Longrightarrow> item_at h' a = item_at h a"
  by (simp add: item_at_def)

lemma items_of_addr:
  "items_of h es = Some S \<Longrightarrow> a \<in> snd ` set es \<Longrightarrow> a < length h"
proof -
  have "items_of h es = Some S \<Longrightarrow> \<forall>e\<in>set es. snd e < length h"
    by (induction es arbitrary: S) (fastforce simp: item_at_Some split: option.splits)+
  then show "items_of h es = Some S \<Longrightarrow> a \<in> snd ` set es \<Longrightarrow> a < length h"
    by auto
qed

lemma items_of_keys:
  "items_of h es = Some S \<Longrightarrow> map fst S = map fst es"
  by (induction es arbitrary: S) (auto split: option.splits)

lemma items_of_cong:
  "(\<And>a. a \<in> snd ` set es \<Longrightarrow> a < length h \<and> a < length h' \<and> h' ! a = h ! a)
     \<Longrightarrow> items_of h' es = items_of h es"
proof (induction es)
  case Nil
  show ?case by simp
next
  case (Cons e es)
  obtain k a where e: "e = (k, a)" by (cases e)
  have "item_at h' a = item_at h a"
    using Cons.prems [of a] by (simp add: e item_at_cong)
  moreover have "items_of h' es = items_of h es"
    by (rule Cons.IH) (simp add: Cons.prems)
  ultimately show ?case by (simp add: e split: option.splits)
qed

lemma items_of_append:
  assumes "items_of h es = Some S"
  shows "items_of (h @ x) es = Some S"
proof -
  have "items_of (h @ x) es = items_of h es"
  proof (rule items_of_cong)
    fix a assume "a \<in> snd ` set es"
    with assms have "a < length h" by (rule items_of_addr)
    then show "a < length h \<and> a < length (h @ x) \<and> (h @ x) ! a = h ! a"
      by (simp add: nth_append)
  qed
  with assms show ?thesis by simp
qed

lemma copy_items_eq:
  "items_of h es = Some S \<Longrightarrow>
     copy_items h es
       = Some (h @ map (\<lambda>e. ItemDict (snd e)) S, zip (map fst S) [length h..<length h + length S])"
proof (induction es arbitrary: h S)
  case Nil
  then show ?case by simp
next
  case (Cons e es)
  obtain k a where e: "e = (k, a)" by (cases e)
  from Cons.prems obtain d S0 where d: "item_at h a = Some d"
    and S0: "items_of h es = Some S0" and S: "S = (k, d) # S0"
    by (auto simp: e split: option.splits)
  from S0 have "items_of (h @ [ItemDict d]) es = Some S0" by (rule items_of_append)
  from Cons.IH [OF this] d show ?case
    by (simp add: e S alloc_def upt_conv_Cons del: upt_Suc)
qed

lemma items_of_copied:
  "items_of (h @ map (\<lambda>e. ItemDict (snd e)) S @ x) (zip (map fst S) [length h..<length h + length S])
     = Some S"
proof (induction S arbitrary: h)
  case Nil
  show ?case by simp
next
  case (Cons e S)
  have "item_at (h @ ItemDict (snd e) # map (\<lambda>e. ItemDict (snd e)) S @ x) (length h) = Some (snd e)"
    by (simp add: item_at_def)
  with Cons [of "h @ [ItemDict (snd e)]"] show ?case
    by (simp add: upt_conv_Cons del: upt_Suc)
qed

lemma frame_loop_store_eq:
  "distinct (map snd es) \<Longrightarrow> items_of h es = Some S \<Longrightarrow>
     \<exists>h'. frame_loop_store now nc es h t = Some (h', snd (frame_loop now nc S t))
          \<and> items_of h' es = Some (fst (frame_loop now nc S t))
          \<and> length h' = length h
          \<and> (\<forall>a. a \<notin> snd ` set es \<longrightarrow> h' ! a = h ! a)"
proof (induction es arbitrary: h S t)
  case Nil
  then show ?case by simp
next
  case (Cons e es)
  obtain k a where e: "e = (k, a)" by (cases e)
  from Cons.prems(2) obtain d S0 where d: "item_at h a = Some d"
    and S0: "items_of h es = Some S0" and S: "S = (k, d) # S0"
    by (auto simp: e split: option.splits)
  obtain d' t' where st: "frame_step now nc k d t = (d', t')" by (cases "frame_step now nc k d t")
  let ?h1 = "h[a := ItemDict d']"
  from Cons.prems(1) have na: "a \<notin> snd ` set es" and dist: "distinct (map snd es)"
    by (auto simp: e)
  from d have al: "a < length h" by (simp add: item_at_Some)
  have "items_of ?h1 es = items_of h es"
  proof (rule items_of_cong)
    fix b assume b: "b \<in> snd ` set es"
    with S0 have "b < length h" by (rule items_of_addr)
    moreover from b na have "b \<noteq> a" by auto
    ultimately show "b < length h \<and> b < length ?h1 \<and> ?h1 ! b = h ! b" by simp
  qed
  with S0 have "items_of ?h1 es = Some S0" by simp
  from Cons.IH [OF dist this, of t'] obtain h' where
    r: "frame_loop_store now nc es ?h1 t' = Some (h', snd (frame_loop now nc S0 t'))"
    and i: "items_of h' es = Some (fst (frame_loop now nc S0 t'))"
    and l: "length h' = length ?h1"
    and u: "\<forall>b. b \<notin> snd ` set es \<longrightarrow> h' ! b = ?h1 ! b"
    by blast
  from u na al have "h' ! a = ItemDict d'" by simp
  with l al have ia: "item_at h' a = Some d'" by (simp add: item_at_Some)
  have f: "frame_loop now nc S t = ((k, d') # fst (frame_loop now nc S0 t'), snd (frame_loop now nc S0 t'))"
    by (simp add: S st split: prod.splits)
  have "\<forall>b. b \<notin> snd ` set (e # es) \<longrightarrow> h' ! b = h ! b"
    using u by (simp add: e)
  with r i l ia d st f show ?case
    by (simp add: e)
qed


lemma new_counts_of_keys:
  "map fst es = map fst es' \<Longrightarrow> new_counts_of tr es = new_counts_of tr es'"
  by (simp add: new_counts_of_def)

lemma process_frame_update_frame_loop:
  "process_frame_update now S tr = frame_loop now (new_counts_of tr S) S None"
  by (simp add: process_frame_update_def)

text \<open>
  C10: whenever \<^verbatim>\<open>current_state\<close> refers to a state \<open>S\<close> in the store, the call returns;
  every object that existed before the call is as it was (the store the call leaves
  starts with the store it found), so \<^verbatim>\<open>current_state\<close> still stands for \<open>S\<close>; the
  returned \<^verbatim>\<open>new_state\<close> is an object that did not exist before; and its value and the
  transaction are those of the function on values.
\<close>

theorem process_frame_update_store_frame:
  assumes "state_value h current_state = Some S"
  shows "\<exists>h' new_state.
           process_frame_update_store now h current_state tr
             = Some (h', new_state, snd (process_frame_update now S tr))
           \<and> take (length h) h' = h
           \<and> state_value h' current_state = Some S
           \<and> length h \<le> new_state
           \<and> state_value h' new_state = Some (fst (process_frame_update now S tr))"
proof -
  from assms obtain es where es: "state_at h current_state = Some es"
    and S: "items_of h es = Some S"
    by (auto simp: state_value_def split: option.splits)
  let ?n = "length h"
  let ?h1 = "h @ map (\<lambda>e. ItemDict (snd e)) S"
  let ?es' = "zip (map fst S) [?n..<?n + length S]"
  let ?h2 = "?h1 @ [StateDict ?es']"
  let ?ns = "length ?h1"
  let ?nc = "new_counts_of tr ?es'"
  have c: "copy_items h es = Some (?h1, ?es')"
    using S by (rule copy_items_eq)
  have sn: "map snd ?es' = [?n..<?n + length S]" by simp
  have k: "map fst ?es' = map fst S" by simp
  have nc: "?nc = new_counts_of tr S"
    by (rule new_counts_of_keys) (rule k)
  have dist: "distinct (map snd ?es')" unfolding sn by simp
  have i2: "items_of ?h2 ?es' = Some S"
    using items_of_copied [of h S "[StateDict ?es']"] by simp
  from frame_loop_store_eq [OF dist i2, of now ?nc None] obtain h' where
    r: "frame_loop_store now ?nc ?es' ?h2 None = Some (h', snd (frame_loop now ?nc S None))"
    and i: "items_of h' ?es' = Some (fst (frame_loop now ?nc S None))"
    and l: "length h' = length ?h2"
    and u: "\<forall>a. a \<notin> snd ` set ?es' \<longrightarrow> h' ! a = ?h2 ! a"
    by blast
  have addrs: "snd ` set ?es' = {?n..<?n + length S}"
    using sn by (metis set_map set_upt)
  have old: "h' ! a = h ! a" if "a < ?n" for a
  proof -
    from that have "a \<notin> snd ` set ?es'" unfolding addrs by simp
    with u have "h' ! a = ?h2 ! a" by blast
    with that show ?thesis by (simp add: nth_append)
  qed
  have t: "take ?n h' = h"
  proof (rule nth_equalityI)
    show "length (take ?n h') = length h" using l by simp
  next
    fix a assume "a < length (take ?n h')"
    then have "a < ?n" by simp
    from old [OF this] this show "take ?n h' ! a = h ! a" by simp
  qed
  from es have cl: "current_state < ?n" and ch: "h ! current_state = StateDict es"
    by (simp_all add: state_at_Some)
  have "state_at h' current_state = Some es"
    using cl ch old [OF cl] l by (simp add: state_at_Some)
  moreover have "items_of h' es = items_of h es"
  proof (rule items_of_cong)
    fix a assume "a \<in> snd ` set es"
    with S have "a < ?n" by (rule items_of_addr)
    from old [OF this] this l show "a < length h \<and> a < length h' \<and> h' ! a = h ! a" by simp
  qed
  ultimately have v: "state_value h' current_state = Some S"
    using S by (simp add: state_value_def)
  have "?ns \<notin> snd ` set ?es'" unfolding addrs by simp
  with u have "h' ! ?ns = ?h2 ! ?ns" by blast
  then have "h' ! ?ns = StateDict ?es'" by (simp add: nth_append)
  with l have "state_at h' ?ns = Some ?es'" by (simp add: state_at_Some)
  with i have v': "state_value h' ?ns = Some (fst (process_frame_update now S tr))"
    by (simp add: state_value_def process_frame_update_frame_loop nc)
  have "process_frame_update_store now h current_state tr
          = Some (h', ?ns, snd (process_frame_update now S tr))"
    using es c r unfolding nc
    by (simp add: process_frame_update_store_def alloc_def process_frame_update_frame_loop nc)
  with t v v' show ?thesis by auto
qed

theorem process_frame_update_store_frame_witness:
  "state_value store0 2
     = Some [(1, \<lparr>name = ''Laptop Box'', min_stock = 2, current_stock = 5, alert_status = ''OK''\<rparr>),
             (2, \<lparr>name = ''Accessory Kit'', min_stock = 5, current_stock = 10, alert_status = ''OK''\<rparr>)]
   \<and> process_frame_update_store ''2024-01-01 00:00:00'' store0 2 [1, 1, 1]
       = Some ([ItemDict \<lparr>name = ''Laptop Box'', min_stock = 2, current_stock = 5, alert_status = ''OK''\<rparr>,
                ItemDict \<lparr>name = ''Accessory Kit'', min_stock = 5, current_stock = 10, alert_status = ''OK''\<rparr>,
                StateDict [(1, 0), (2, 1)],
                ItemDict \<lparr>name = ''Laptop Box'', min_stock = 2, current_stock = 3, alert_status = ''OK''\<rparr>,
                ItemDict \<lparr>name = ''Accessory Kit'', min_stock = 5, current_stock = 0, alert_status = ''CRITICAL''\<rparr>,
                StateDict [(1, 3), (2, 4)]],
               5,
               Some \<lparr>item_id = ''1'', item_name = ''Laptop Box'', timestamp = ''2024-01-01 00:00:00'',
                     action = ''REMOVED'', quantity_change = 2\<rparr>)
   \<and> (\<exists>h' new_state.
          process_frame_update_store ''2024-01-01 00:00:00'' store0 2 [1, 1, 1]
            = Some (h', new_state,
                snd (process_frame_update ''2024-01-01 00:00:00''
                       [(1, \<lparr>name = ''Laptop Box'', min_stock = 2, current_stock = 5, alert_status = ''OK''\<rparr>),
                        (2, \<lparr>name = ''Accessory Kit'', min_stock = 5, current_stock = 10, alert_status = ''OK''\<rparr>)]
                       [1, 1, 1]))
          \<and> take (length store0) h' = store0
          \<and> length store0 \<le> new_state)"
proof -
  let ?S = "[(1, \<lparr>name = ''Laptop Box'', min_stock = 2, current_stock = 5, alert_status = ''OK''\<rparr>),
             (2, \<lparr>name = ''Accessory Kit'', min_stock = 5, current_stock = 10, alert_status = ''OK''\<rparr>)]"
  have v: "state_value store0 2 = Some ?S"
    by (simp add: state_value_def state_at_def item_at_def store0_def)
  have e: "process_frame_update_store ''2024-01-01 00:00:00'' store0 2 [1, 1, 1]
       = Some ([ItemDict \<lparr>name = ''Laptop Box'', min_stock = 2, current_stock = 5, alert_status = ''OK''\<rparr>,
                ItemDict \<lparr>name = ''Accessory Kit'', min_stock = 5, current_stock = 10, alert_status = ''OK''\<rparr>,
                StateDict [(1, 0), (2, 1)],
                ItemDict \<lparr>name = ''Laptop Box'', min_stock = 2, current_stock = 3, alert_status = ''OK''\<rparr>,
                ItemDict \<lparr>name = ''Accessory Kit'', min_stock = 5, current_stock = 0, alert_status = ''CRITICAL''\<rparr>,
                StateDict [(1, 3), (2, 4)]],
               5,
               Some \<lparr>item_id = ''1'', item_name = ''Laptop Box'', timestamp = ''2024-01-01 00:00:00'',
                     action = ''REMOVED'', quantity_change = 2\<rparr>)"
    by (simp add: process_frame_update_store_def state_at_def item_at_def store0_def alloc_def
        new_counts_of_def get_count_def frame_step_def new_status_def str_int_1)
  from process_frame_update_store_frame [OF v, of "''2024-01-01 00:00:00''" "[1, 1, 1]"] v e
  show ?thesis by blast
qed

end
